theory Spec2Isabelle
  imports Main "HOL-Library.Word" "HOL-Library.AList"
begin

unbundle bit_operations_syntax

section \<open>Go values used by package attest (attest/tpm.go)\<close>

type_synonym byte = "8 word"
type_synonym uint16 = "16 word"
type_synonym uint32 = "32 word"

text \<open>
  A Go call either returns or panics (an out-of-range slice or index, a nil
  dereference). A function of type \<open>(T, error)\<close> returns a pair; its two
  components are kept apart so that a non-nil value next to a non-nil error
  stays visible.
\<close>

datatype 'a outcome = Panics | Returns 'a

subsection \<open>Conversion of an integer to a string\<close>

text \<open>
  Go's conversion \<open>string(x)\<close> of an integer yields the UTF-8 encoding of the
  code point \<open>x\<close>; a value that is no valid code point (beyond U+10FFFF, or a
  surrogate) yields the encoding of U+FFFD. A Go string is a sequence of
  bytes.
\<close>

definition runeError :: uint32 where
  "runeError = 0xFFFD"

definition valid_rune :: "uint32 \<Rightarrow> bool" where
  "valid_rune v = (v \<le> 0x10FFFF \<and> \<not> (0xD800 \<le> v \<and> v \<le> 0xDFFF))"

definition encoderune :: "uint32 \<Rightarrow> byte list" where
  "encoderune r =
     (if r \<le> 0x7F then [ucast r]
      else if r \<le> 0x7FF then
        [0xC0 OR ucast (drop_bit 6 r), 0x80 OR (ucast r AND 0x3F)]
      else if r \<le> 0xFFFF then
        [0xE0 OR ucast (drop_bit 12 r),
         0x80 OR (ucast (drop_bit 6 r) AND 0x3F),
         0x80 OR (ucast r AND 0x3F)]
      else
        [0xF0 OR ucast (drop_bit 18 r),
         0x80 OR (ucast (drop_bit 12 r) AND 0x3F),
         0x80 OR (ucast (drop_bit 6 r) AND 0x3F),
         0x80 OR (ucast r AND 0x3F)])"

definition string_of_uint32 :: "uint32 \<Rightarrow> byte list" where
  "string_of_uint32 v = encoderune (if valid_rune v then v else runeError)"

text \<open>\<open>strings.Trim(s, "\x00")\<close>: the NUL bytes at both ends are cut.\<close>

definition trim_nul :: "byte list \<Rightarrow> byte list" where
  "trim_nul s = dropWhile (\<lambda>b. b = 0) (rev (dropWhile (\<lambda>b. b = 0) (rev s)))"

section \<open>readTPM2VendorAttributes\<close>

definition tpmPtManufacturer :: uint32 where
  "tpmPtManufacturer = 0x00000100 + 5"

definition tpmPtVendorString :: uint32 where
  "tpmPtVendorString = 0x00000100 + 6"

definition tpmPtFwVersion1 :: uint32 where
  "tpmPtFwVersion1 = 0x00000100 + 11"

text \<open>
  \<open>tpm2.GetCapability(tpm, CapabilityTPMProperties, 1, property)\<close> is a command
  sent to the device. The device is a step function on its own state: it
  answers the property asked for and moves on. The answer is a transport
  error or a list of capabilities, each a \<open>tpm2.TaggedProperty\<close> or a value
  of another type.
\<close>

datatype capability = TaggedProperty (Tag: uint32) (Value: uint32) | OtherCapability

datatype 'e cap_response = CapError 'e | Caps "capability list"

type_synonym ('s, 'e) cap_device = "'s \<Rightarrow> uint32 \<Rightarrow> 'e cap_response \<times> 's"

record tpm20Info =
  vendor :: "byte list"
  manufacturer :: uint32
  fwMajor :: int
  fwMinor :: int

datatype 'e info_error =
    VendorStringFailed nat 'e
  | ManufacturerFailed 'e
  | FirmwareVersionFailed 'e
  | NotTaggedProperty

text \<open>
  One read, as each of the six reads of the function is written: the error
  is wrapped by the caller's message, \<open>caps[0]\<close> panics on an empty list, and
  the type assertion fails on a capability of another type.
\<close>

definition readProperty ::
  "('s, 'e) cap_device \<Rightarrow> 's \<Rightarrow> uint32 \<Rightarrow> ('e \<Rightarrow> 'e info_error) \<Rightarrow>
     (('e info_error + uint32) \<times> 's) outcome" where
  "readProperty tpm s property wrap =
     (case tpm s property of
        (CapError e, s') \<Rightarrow> Returns (Inl (wrap e), s')
      | (Caps [], s') \<Rightarrow> Panics
      | (Caps (OtherCapability # _), s') \<Rightarrow> Returns (Inl NotTaggedProperty, s')
      | (Caps (TaggedProperty _ v # _), s') \<Rightarrow> Returns (Inr v, s'))"

text \<open>The four octets appended to \<open>vendorInfo\<close> for one value.\<close>

definition vendorChunk :: "uint32 \<Rightarrow> byte list" where
  "vendorChunk v =
     string_of_uint32 (v AND 0xFF000000) @ string_of_uint32 (v AND 0xFF0000) @
     string_of_uint32 (v AND 0xFF00) @ string_of_uint32 (v AND 0xFF)"

text \<open>The loop \<open>for i := 0; i < 4; i++\<close>, counted by the reads still to make.\<close>

fun vendorLoop ::
  "('s, 'e) cap_device \<Rightarrow> nat \<Rightarrow> nat \<Rightarrow> 's \<Rightarrow> byte list \<Rightarrow>
     (('e info_error + byte list) \<times> 's) outcome" where
  "vendorLoop tpm 0 i s vendorInfo = Returns (Inr vendorInfo, s)"
| "vendorLoop tpm (Suc n) i s vendorInfo =
     (case readProperty tpm s (tpmPtVendorString + of_nat i) (VendorStringFailed (i + 1)) of
        Panics \<Rightarrow> Panics
      | Returns (Inl e, s') \<Rightarrow> Returns (Inl e, s')
      | Returns (Inr v, s') \<Rightarrow> vendorLoop tpm n (Suc i) s' (vendorInfo @ vendorChunk v))"

definition readTPM2VendorAttributes ::
  "('s, 'e) cap_device \<Rightarrow> 's \<Rightarrow> (('e info_error + tpm20Info) \<times> 's) outcome" where
  "readTPM2VendorAttributes tpm s =
     (case vendorLoop tpm 4 0 s [] of
        Panics \<Rightarrow> Panics
      | Returns (Inl e, s1) \<Rightarrow> Returns (Inl e, s1)
      | Returns (Inr vendorInfo, s1) \<Rightarrow>
     (case readProperty tpm s1 tpmPtManufacturer ManufacturerFailed of
        Panics \<Rightarrow> Panics
      | Returns (Inl e, s2) \<Rightarrow> Returns (Inl e, s2)
      | Returns (Inr manu, s2) \<Rightarrow>
     (case readProperty tpm s2 tpmPtFwVersion1 FirmwareVersionFailed of
        Panics \<Rightarrow> Panics
      | Returns (Inl e, s3) \<Rightarrow> Returns (Inl e, s3)
      | Returns (Inr fw, s3) \<Rightarrow>
          Returns (Inr \<lparr>vendor = trim_nul vendorInfo,
                        manufacturer = manu,
                        fwMajor = uint (drop_bit 16 (fw AND 0xffff0000)),
                        fwMinor = uint (fw AND 0x0000ffff)\<rparr>, s3))))"

text \<open>
  A device for evaluation: its state is the list of values it has still to
  hand out, one per command, each as a single tagged property; out of values
  it reports a transport error.
\<close>

fun scripted_caps :: "(uint32 list, unit) cap_device" where
  "scripted_caps [] property = (CapError (), [])"
| "scripted_caps (v # vs) property = (Caps [TaggedProperty property v], vs)"

text \<open>
  What the comments of the function describe: the four octets of a value,
  most significant first.
\<close>

definition be_octets :: "uint32 \<Rightarrow> byte list" where
  "be_octets v = [ucast (drop_bit 24 v), ucast (drop_bit 16 v), ucast (drop_bit 8 v), ucast v]"

section \<open>ParseEKCertificate\<close>

text \<open>
  A slice expression \<open>a[lo:hi]\<close> panics unless \<open>lo \<le> hi \<le> cap(a)\<close>. The
  capacity of the input is taken to be its length; where the function below
  slices past index 5 the bounds are either checked against the length
  before, or \<open>hi < lo\<close> and the capacity plays no part.
\<close>

definition go_slice :: "'a list \<Rightarrow> nat \<Rightarrow> nat \<Rightarrow> 'a list option" where
  "go_slice a lo hi =
     (if lo \<le> hi \<and> hi \<le> length a then Some (take (hi - lo) (drop lo a)) else None)"

text \<open>\<open>binary.BigEndian.Uint16\<close> on a slice of two bytes.\<close>

definition Uint16 :: "byte list \<Rightarrow> uint16" where
  "Uint16 b = ucast (b ! 1) OR push_bit 8 (ucast (b ! 0))"

text \<open>
  The NVRAM prefix of TCG PC Specific Implementation 7.3.2 (lines 160 to
  167). \<open>certLen\<close> is a \<open>uint16\<close>, and so are \<open>certLen+5\<close> and \<open>5+certLen\<close>:
  both sums wrap at 65536 before they are converted or used as a bound.
  The result is the header error with the declared length, or the bytes to
  parse and \<open>wasWrapped\<close>.
\<close>

definition nvram_unwrap :: "byte list \<Rightarrow> (uint16 + byte list \<times> bool) outcome" where
  "nvram_unwrap ekCert =
     (if length ekCert > 5 \<and> take 3 ekCert = [0x10, 0x01, 0x00] then
        (let certLen = Uint16 (take 2 (drop 3 ekCert)) in
         if length ekCert < unat (certLen + 5) then Returns (Inl certLen)
         else (case go_slice ekCert 5 (unat (5 + certLen)) of
                 None \<Rightarrow> Panics
               | Some payload \<Rightarrow> Returns (Inr (payload, True))))
      else Returns (Inr (ekCert, False)))"

text \<open>
  The certificate decoder is the library the function calls:
  \<open>x509.ParseCertificate\<close> returns a certificate pointer and an error,
  \<open>asn1.UnmarshalWithParams(_, &cert, "lax")\<close> fills \<open>cert.Raw\<close> and returns an
  error, \<open>x509.IsFatal\<close> classifies an error. \<open>None\<close> is \<open>nil\<close>.
\<close>

record ('c, 'e) x509lib =
  ParseCertificate :: "byte list \<Rightarrow> 'c option \<times> 'e option"
  UnmarshalLax :: "byte list \<Rightarrow> byte list \<times> 'e option"
  IsFatal :: "'e \<Rightarrow> bool"

datatype 'e parse_error =
    NVRAMHeader nat uint16
  | Asn1UnmarshalFailed 'e bool
  | X509ParseFailed 'e

text \<open>
  The test \<open>err != nil && x509.IsFatal(err)\<close>, and the error that passes it.
\<close>

definition fatal :: "('c, 'e) x509lib \<Rightarrow> 'e option \<Rightarrow> bool" where
  "fatal lib err = (case err of None \<Rightarrow> False | Some e \<Rightarrow> IsFatal lib e)"

definition fatalError :: "('c, 'e) x509lib \<Rightarrow> 'e option \<Rightarrow> 'e option" where
  "fatalError lib err = (if fatal lib err then err else None)"

text \<open>Lines 169 to 188, on the bytes left by the prefix check.\<close>

definition parseUnwrapped ::
  "('c, 'e) x509lib \<Rightarrow> byte list \<Rightarrow> bool \<Rightarrow> 'c option \<times> 'e parse_error option" where
  "parseUnwrapped lib ekCert wasWrapped =
     (case ParseCertificate lib ekCert of
        (c, None) \<Rightarrow> (c, None)
      | (_, Some _) \<Rightarrow>
          (case UnmarshalLax lib ekCert of
             (raw, uerr) \<Rightarrow>
               (case fatalError lib uerr of
                  Some e \<Rightarrow> (None, Some (Asn1UnmarshalFailed e wasWrapped))
                | None \<Rightarrow>
                    (case ParseCertificate lib raw of
                       (c, err) \<Rightarrow>
                         (case fatalError lib err of
                            Some e' \<Rightarrow> (None, Some (X509ParseFailed e'))
                          | None \<Rightarrow> (c, None))))))"

definition ParseEKCertificate ::
  "('c, 'e) x509lib \<Rightarrow> byte list \<Rightarrow> ('c option \<times> 'e parse_error option) outcome" where
  "ParseEKCertificate lib ekCert =
     (case nvram_unwrap ekCert of
        Panics \<Rightarrow> Panics
      | Returns (Inl certLen) \<Rightarrow> Returns (None, Some (NVRAMHeader (length ekCert) certLen))
      | Returns (Inr (payload, wasWrapped)) \<Rightarrow> Returns (parseUnwrapped lib payload wasWrapped))"

text \<open>
  The input the NVRAM stores for a certificate \<open>c\<close>: the tag, the length of
  \<open>c\<close> on two bytes, most significant first, \<open>c\<close>, and whatever follows it.
\<close>

definition nvram_wrapped :: "byte list \<Rightarrow> byte list \<Rightarrow> byte list" where
  "nvram_wrapped c trailing =
     [0x10, 0x01, 0x00] @
     [ucast (drop_bit 8 (of_nat (length c) :: uint16)), ucast (of_nat (length c) :: uint16)] @
     c @ trailing"

definition has_nvram_header :: "byte list \<Rightarrow> bool" where
  "has_nvram_header c = (length c > 5 \<and> take 3 c = [0x10, 0x01, 0x00])"

text \<open>
  The length a prefix declares; the check of lines 162 to 164, where that
  length plus 5 does not wrap; and the bytes the prefix check then leaves to
  the decoder.
\<close>

definition declaredLen :: "byte list \<Rightarrow> uint16" where
  "declaredLen ekCert = Uint16 (take 2 (drop 3 ekCert))"

definition header_short :: "byte list \<Rightarrow> bool" where
  "header_short ekCert =
     (has_nvram_header ekCert \<and> length ekCert < unat (declaredLen ekCert) + 5)"

definition prefix_payload :: "byte list \<Rightarrow> byte list" where
  "prefix_payload ekCert =
     (if has_nvram_header ekCert then take (unat (declaredLen ekCert)) (drop 5 ekCert)
      else ekCert)"

text \<open>The error with the \<open>wasWrapped\<close> its message prints set to \<open>w\<close>.\<close>

fun with_wasWrapped :: "bool \<Rightarrow> 'e parse_error \<Rightarrow> 'e parse_error" where
  "with_wasWrapped w (Asn1UnmarshalFailed e _) = Asn1UnmarshalFailed e w"
| "with_wasWrapped w err = err"

text \<open>
  A decoder for evaluation, over one-byte lengths. A certificate is the tag
  \<open>0x30\<close>, a length byte and exactly that many bytes; one with no bytes is
  returned with an error that is not fatal. The lenient decoder cuts the
  first element, whatever its tag, out of its input and ignores what follows.
\<close>

datatype toy_error = TrailingData | Truncated | BadTag | EmptyBody

definition toy_parse :: "byte list \<Rightarrow> byte list option \<times> toy_error option" where
  "toy_parse b =
     (case b of
        t # n # rest \<Rightarrow>
          if t \<noteq> 0x30 then (None, Some BadTag)
          else if length rest < unat n then (None, Some Truncated)
          else if length rest > unat n then (None, Some TrailingData)
          else if n = 0 then (Some rest, Some EmptyBody)
          else (Some rest, None)
      | _ \<Rightarrow> (None, Some Truncated))"

definition toy_unmarshal :: "byte list \<Rightarrow> byte list \<times> toy_error option" where
  "toy_unmarshal b =
     (case b of
        t # n # rest \<Rightarrow>
          if length rest < unat n then ([], Some Truncated)
          else (t # n # take (unat n) rest, None)
      | _ \<Rightarrow> ([], Some Truncated))"

definition toy_fatal :: "toy_error \<Rightarrow> bool" where
  "toy_fatal e = (e \<noteq> EmptyBody)"

definition toy_x509 :: "(byte list, toy_error) x509lib" where
  "toy_x509 = \<lparr>ParseCertificate = toy_parse, UnmarshalLax = toy_unmarshal, IsFatal = toy_fatal\<rparr>"

text \<open>A decoder for evaluation that accepts every input and reports no error.\<close>

definition accepting_x509 :: "(byte list, unit) x509lib" where
  "accepting_x509 =
     \<lparr>ParseCertificate = (\<lambda>b. (Some b, None)), UnmarshalLax = (\<lambda>b. (b, None)),
      IsFatal = (\<lambda>e. True)\<rparr>"

section \<open>Commands sent to the device\<close>

text \<open>
  The functions below write a command to \<open>tpm io.ReadWriter\<close> and read the
  answer. A device is a step function: from its state and a command to the
  answer and its next state. \<open>recording\<close> is the same device with a journal of
  the commands it was sent and the answers it gave, oldest first.
\<close>

type_synonym ('s, 'c, 'r) device = "'s \<Rightarrow> 'c \<Rightarrow> 'r \<times> 's"

definition recording ::
  "('s, 'c, 'r) device \<Rightarrow> (('c \<times> 'r) list \<times> 's, 'c, 'r) device" where
  "recording tpm js cmd =
     (case tpm (snd js) cmd of (r, s') \<Rightarrow> (r, (fst js @ [(cmd, r)], s')))"

text \<open>\<open>tpm2.Algorithm\<close> is a \<open>uint16\<close>; \<open>tpm2.PCRSelection\<close> has these two fields.\<close>

record PCRSelection =
  Hash :: uint16
  PCRs :: "int list"

section \<open>readAllPCRs20\<close>

definition numPCRs :: nat where
  "numPCRs = 24"

text \<open>
  \<open>out\<close> is a \<open>map[uint32][]byte\<close>: a list of pairs with distinct keys, an
  assignment replacing the value of a key already there, \<open>len(out)\<close> its
  length. \<open>uint32(pcr)\<close> of an \<open>int\<close> is \<open>word_of_int\<close>.
\<close>

type_synonym pcr_map = "(uint32 \<times> byte list) list"

text \<open>
  The inner loop \<open>for pcr := 0; pcr < numPCRs; pcr++\<close>: the indices with no
  entry in \<open>out\<close> are appended to the selection.
\<close>

fun missingLoop :: "pcr_map \<Rightarrow> nat \<Rightarrow> int \<Rightarrow> int list \<Rightarrow> int list" where
  "missingLoop out 0 pcr acc = acc"
| "missingLoop out (Suc n) pcr acc =
     missingLoop out n (pcr + 1)
       (if map_of out (word_of_int pcr) = None then acc @ [pcr] else acc)"

text \<open>
  \<open>for pcr, digest := range ret { out[uint32(pcr)] = digest }\<close>, the answer
  being listed in the order the iteration takes.
\<close>

fun storeLoop :: "pcr_map \<Rightarrow> (int \<times> byte list) list \<Rightarrow> pcr_map" where
  "storeLoop out [] = out"
| "storeLoop out ((pcr, digest) # ret) =
     storeLoop (AList.update (word_of_int pcr) digest out) ret"

datatype 'e pcr_error = ReadPCRsFailed PCRSelection 'e | NotAllPCRs nat

type_synonym ('s, 'e) pcr_device =
  "('s, PCRSelection, 'e + (int \<times> byte list) list) device"

text \<open>
  The outer loop \<open>for i := 0; i < numPCRs; i++\<close>, counted by the rounds left.
  It ends on an error of \<open>tpm2.ReadPCRs\<close>, on the \<open>break\<close>, or with its
  counter.
\<close>

fun pcrLoop ::
  "('s, 'e) pcr_device \<Rightarrow> uint16 \<Rightarrow> nat \<Rightarrow> 's \<Rightarrow> pcr_map \<Rightarrow> ('e pcr_error + pcr_map) \<times> 's" where
  "pcrLoop tpm alg 0 s out = (Inr out, s)"
| "pcrLoop tpm alg (Suc n) s out =
     (let sel = \<lparr>Hash = alg, PCRs = missingLoop out numPCRs 0 []\<rparr> in
      case tpm s sel of
        (Inl err, s') \<Rightarrow> (Inl (ReadPCRsFailed sel err), s')
      | (Inr ret, s') \<Rightarrow>
          (let out' = storeLoop out ret in
           if length out' = numPCRs then (Inr out', s') else pcrLoop tpm alg n s' out'))"

definition readAllPCRs20 ::
  "('s, 'e) pcr_device \<Rightarrow> 's \<Rightarrow> uint16 \<Rightarrow> ('e pcr_error + pcr_map) \<times> 's" where
  "readAllPCRs20 tpm s alg =
     (case pcrLoop tpm alg numPCRs s [] of
        (Inl err, s') \<Rightarrow> (Inl err, s')
      | (Inr out, s') \<Rightarrow>
          if length out \<noteq> numPCRs then (Inl (NotAllPCRs (length out)), s')
          else (Inr out, s'))"

text \<open>
  The indices the answers of a journal have supplied, and what it means for
  a device to supply only indices it was asked for.
\<close>

definition supplied :: "(PCRSelection \<times> ('e + (int \<times> byte list) list)) list \<Rightarrow> int list" where
  "supplied journal =
     concat (map (\<lambda>(sel, r). case r of Inl _ \<Rightarrow> [] | Inr ret \<Rightarrow> map fst ret) journal)"

definition answers_within :: "('s, 'e) pcr_device \<Rightarrow> bool" where
  "answers_within tpm =
     (\<forall>s sel. case fst (tpm s sel) of
        Inl _ \<Rightarrow> True
      | Inr ret \<Rightarrow> set (map fst ret) \<subseteq> set (PCRs sel))"

text \<open>
  The commands a call sends and the answers it gets, and what the loop keeps
  true of \<open>out\<close> and the journal so far: the keys of \<open>out\<close> are the indices
  supplied, each once, and all lie in 0..23.
\<close>

definition readAllPCRs20_journal ::
  "('s, 'e) pcr_device \<Rightarrow> 's \<Rightarrow> uint16 \<Rightarrow> (PCRSelection \<times> ('e + (int \<times> byte list) list)) list" where
  "readAllPCRs20_journal tpm s alg = fst (snd (readAllPCRs20 (recording tpm) ([], s) alg))"

definition pcr_inv ::
  "pcr_map \<Rightarrow> (PCRSelection \<times> ('e + (int \<times> byte list) list)) list \<Rightarrow> bool" where
  "pcr_inv out journal =
     (distinct (map fst out) \<and>
      set (map fst out) = word_of_int ` set (supplied journal) \<and>
      set (supplied journal) \<subseteq> {0..23})"

text \<open>
  A device for evaluation: it answers at most the first eight of the indices
  asked for, with the index as a one-byte digest; its state counts the
  commands.
\<close>

definition eight_at_a_time :: "(nat, unit) pcr_device" where
  "eight_at_a_time s sel = (Inr (map (\<lambda>p. (p, [word_of_int p])) (take 8 (PCRs sel))), Suc s)"

section \<open>quote20\<close>

text \<open>
  \<open>tpm2.Quote(tpm, aikHandle, "", "", nonce, sel, tpm2.AlgNull)\<close> with its
  arguments in order, and its three results: the attestation bytes, a
  pointer to the signature and an error. A \<open>tpm2.Signature\<close> has the
  algorithm and a pointer to its RSA part.
\<close>

definition AlgNull :: uint16 where
  "AlgNull = 0x0010"

record QuoteCommand =
  signingHandle :: uint32
  parentPassword :: string
  ownerPassword :: string
  toQuote :: "byte list"
  sel :: PCRSelection
  sigAlg :: uint16

record SignatureRSA =
  HashAlg :: uint16
  RSASignature :: "byte list"

record TPMSignature =
  Alg :: uint16
  RSA :: "SignatureRSA option"

type_synonym 'e quote_response = "byte list \<times> TPMSignature option \<times> 'e option"

datatype TPMVersion = TPMVersion12 | TPMVersion20

record Quote =
  Version :: TPMVersion
  Quote :: "byte list"
  Signature :: "byte list"

text \<open>
  \<open>tpmutil.Pack(sig.Alg, sig.RSA.HashAlg, sig.RSA.Signature)\<close> returns the
  packed bytes and an error; the packer is the library's and is a parameter.
  The error returned by \<open>quote20\<close> is the device's or the packer's, unwrapped.
\<close>

type_synonym 'p packer = "uint16 \<Rightarrow> uint16 \<Rightarrow> byte list \<Rightarrow> byte list \<times> 'p option"

text \<open>The loop that fills \<open>sel.PCRs\<close>.\<close>

fun selectLoop :: "nat \<Rightarrow> int \<Rightarrow> int list \<Rightarrow> int list" where
  "selectLoop 0 pcr acc = acc"
| "selectLoop (Suc n) pcr acc = selectLoop n (pcr + 1) (acc @ [pcr])"

definition quote20 ::
  "('s, QuoteCommand, 'e quote_response) device \<Rightarrow> 'p packer \<Rightarrow> 's \<Rightarrow>
     uint32 \<Rightarrow> uint16 \<Rightarrow> byte list \<Rightarrow> (Quote option \<times> ('e + 'p) option) outcome \<times> 's" where
  "quote20 tpm pack s aikHandle hashAlg nonce =
     (let sel = \<lparr>Hash = hashAlg, PCRs = selectLoop 24 0 []\<rparr> in
      case tpm s \<lparr>signingHandle = aikHandle, parentPassword = [], ownerPassword = [],
                   toQuote = nonce, sel = sel, sigAlg = AlgNull\<rparr> of
        ((quote, sig, Some err), s') \<Rightarrow> (Returns (None, Some (Inl err)), s')
      | ((quote, None, None), s') \<Rightarrow> (Panics, s')
      | ((quote, Some sig, None), s') \<Rightarrow>
          (case RSA sig of
             None \<Rightarrow> (Panics, s')
           | Some rsa \<Rightarrow>
               (case pack (Alg sig) (HashAlg rsa) (RSASignature rsa) of
                  (rawSig, err) \<Rightarrow>
                    (Returns (Some \<lparr>Version = TPMVersion20, Quote = quote, Signature = rawSig\<rparr>,
                              map_option Inr err), s'))))"

text \<open>
  The command a quote over the whole bank is: the key handle, two empty
  passwords, the nonce, the 24 indices under the hash algorithm, and no
  signature scheme of the caller's.
\<close>

definition quoteCommand :: "uint32 \<Rightarrow> uint16 \<Rightarrow> byte list \<Rightarrow> QuoteCommand" where
  "quoteCommand aikHandle hashAlg nonce =
     \<lparr>signingHandle = aikHandle, parentPassword = [], ownerPassword = [], toQuote = nonce,
      sel = \<lparr>Hash = hashAlg, PCRs = [0..23]\<rparr>, sigAlg = AlgNull\<rparr>"

text \<open>
  For evaluation: a device that signs nothing but echoes the nonce as the
  attestation, and two packers, one that concatenates and one that refuses.
\<close>

definition echo_quote :: "(nat, QuoteCommand, unit quote_response) device" where
  "echo_quote s cmd =
     ((toQuote cmd, Some \<lparr>Alg = 0x0014, RSA = Some \<lparr>HashAlg = 0x000B, RSASignature = [0xAB]\<rparr>\<rparr>, None),
      Suc s)"

definition pack_ok :: "unit packer" where
  "pack_ok a h sg = ([ucast (drop_bit 8 a), ucast a, ucast (drop_bit 8 h), ucast h] @ sg, None)"

definition pack_refuses :: "unit packer" where
  "pack_refuses a h sg = ([], Some ())"

section \<open>intelEKURL\<close>

text \<open>
  \<open>rsa.PublicKey\<close> has the modulus \<open>N\<close>, a \<open>*big.Int\<close>, and the exponent \<open>E\<close>.
  \<open>N.Bytes()\<close> is the absolute value of \<open>N\<close>, most significant byte first,
  with no leading zero byte.
\<close>

record PublicKey =
  N :: int
  E :: int

function natBytes :: "nat \<Rightarrow> byte list" where
  "natBytes n = (if n = 0 then [] else natBytes (n div 256) @ [of_nat (n mod 256)])"
  by pat_completeness auto
termination
  by (relation "measure (\<lambda>n. n)") auto

declare natBytes.simps [simp del]

definition Bytes :: "int \<Rightarrow> byte list" where
  "Bytes x = natBytes (nat \<bar>x\<bar>)"

text \<open>The number a byte sequence denotes, most significant byte first.\<close>

definition be_nat :: "byte list \<Rightarrow> nat" where
  "be_nat bs = foldl (\<lambda>acc b. 256 * acc + unat b) 0 bs"

text \<open>
  \<open>sha256.New()\<close> is a hash object: \<open>Write\<close> appends to what it has been
  given, \<open>Sum(b)\<close> appends the digest of all of it to \<open>b\<close>. The digest function
  is the library's and is a parameter.
\<close>

record hasher =
  written :: "byte list"

definition New :: hasher where
  "New = \<lparr>written = []\<rparr>"

definition Write :: "hasher \<Rightarrow> byte list \<Rightarrow> hasher" where
  "Write h p = h\<lparr>written := written h @ p\<rparr>"

definition Sum :: "(byte list \<Rightarrow> byte list) \<Rightarrow> hasher \<Rightarrow> byte list \<Rightarrow> byte list" where
  "Sum sha256 h b = b @ sha256 (written h)"

text \<open>
  \<open>base64.URLEncoding.EncodeToString\<close>: the URL alphabet of RFC 4648, three
  bytes to four characters, the last group padded with \<open>=\<close>.
\<close>

definition encodeURL :: string where
  "encodeURL = ''ABCDEFGHIJKLMNOPQRSTUVWXYZabcdefghijklmnopqrstuvwxyz0123456789-_''"

definition sextet :: "byte \<Rightarrow> char" where
  "sextet v = encodeURL ! unat (v AND 0x3F)"

fun EncodeToString :: "byte list \<Rightarrow> string" where
  "EncodeToString [] = []"
| "EncodeToString [a] =
     [sextet (drop_bit 2 a), sextet (push_bit 4 a), CHR ''='', CHR ''='']"
| "EncodeToString [a, b] =
     [sextet (drop_bit 2 a), sextet (push_bit 4 a OR drop_bit 4 b),
      sextet (push_bit 2 b), CHR ''='']"
| "EncodeToString (a # b # c # rest) =
     [sextet (drop_bit 2 a), sextet (push_bit 4 a OR drop_bit 4 b),
      sextet (push_bit 2 b OR drop_bit 6 c), sextet c] @ EncodeToString rest"

definition intelEKCertServiceURL :: string where
  "intelEKCertServiceURL = ''https://ekop.intel.com/ekcertservice/''"

definition intelEKURL :: "(byte list \<Rightarrow> byte list) \<Rightarrow> PublicKey \<Rightarrow> string" where
  "intelEKURL sha256 ekPub =
     (let pubHash = New;
          pubHash = Write pubHash (Bytes (N ekPub));
          pubHash = Write pubHash [0x1, 0x00, 0x01]
      in intelEKCertServiceURL @ EncodeToString (Sum sha256 pubHash []))"

section \<open>aikTemplate\<close>

text \<open>
  The constants of package \<open>tpm2\<close> the template names, with the values the
  TCG algorithm registry and the TPM 2.0 structures give them
  (\<open>TPM_ALG_ID\<close>, \<open>TPMA_OBJECT\<close>).
\<close>

definition AlgRSA :: uint16 where
  "AlgRSA = 0x0001"

definition AlgSHA256 :: uint16 where
  "AlgSHA256 = 0x000B"

definition AlgRSASSA :: uint16 where
  "AlgRSASSA = 0x0014"

definition FlagFixedTPM :: uint32 where
  "FlagFixedTPM = 0x00000002"

definition FlagFixedParent :: uint32 where
  "FlagFixedParent = 0x00000010"

definition FlagSensitiveDataOrigin :: uint32 where
  "FlagSensitiveDataOrigin = 0x00000020"

definition FlagUserWithAuth :: uint32 where
  "FlagUserWithAuth = 0x00000040"

definition FlagRestricted :: uint32 where
  "FlagRestricted = 0x00010000"

definition FlagDecrypt :: uint32 where
  "FlagDecrypt = 0x00020000"

definition FlagSign :: uint32 where
  "FlagSign = 0x00040000"

definition FlagSignerDefault :: uint32 where
  "FlagSignerDefault =
     FlagSign OR FlagRestricted OR FlagFixedTPM OR FlagFixedParent OR
     FlagSensitiveDataOrigin OR FlagUserWithAuth"

record SigScheme =
  SchemeAlg :: uint16
  SchemeHash :: uint16

record RSAParams =
  Sign :: "SigScheme option"
  KeyBits :: uint16

record Public =
  Type :: uint16
  NameAlg :: uint16
  Attributes :: uint32
  RSAParameters :: "RSAParams option"

text \<open>
  The initial value of the package-level variable. The functions of this file
  neither read nor assign it; the functions that use it are in other files.
\<close>

definition aikTemplate :: Public where
  "aikTemplate =
     \<lparr>Type = AlgRSA,
      NameAlg = AlgSHA256,
      Attributes = FlagSignerDefault,
      RSAParameters = Some \<lparr>Sign = Some \<lparr>SchemeAlg = AlgRSASSA, SchemeHash = AlgSHA256\<rparr>,
                            KeyBits = 2048\<rparr>\<rparr>"

section \<open>LoadAIK\<close>

text \<open>
  Modelled from the spec: \<open>AIK.Serialize\<close> and \<open>TPM.loadAIK\<close> are not among the
  source files; \<open>LoadAIK\<close> only hands its argument to \<open>loadAIK\<close>. The spec
  describes the blob as a version-tagged opaque container whose inner fields
  are, for version 2.0, the public blob, the creation data, the attestation
  data and the signature data, and for version 1.2 the public blob and the
  auxiliary data; \<open>Load\<close> fails with \<open>FormatError\<close> on any blob that no matching
  \<open>Serialize\<close> produced. The version tags are those of the enumeration
  \<open>TpmVersion\<close> of the schema (1 for 1.2, 2 for 2.0).
\<close>

datatype AIK =
    AIK20 (public_blob: "byte list") (creation_data: "byte list")
          (attestation_data: "byte list") (signature_data: "byte list")
  | AIK12 (public_blob: "byte list") (aux: "byte list")

record blob =
  version_tag :: nat
  inner_fields :: "byte list list"

datatype load_error = FormatError

fun aik_version :: "AIK \<Rightarrow> TPMVersion" where
  "aik_version (AIK20 _ _ _ _) = TPMVersion20"
| "aik_version (AIK12 _ _) = TPMVersion12"

fun tag_of :: "TPMVersion \<Rightarrow> nat" where
  "tag_of TPMVersion12 = 1"
| "tag_of TPMVersion20 = 2"

fun Serialize :: "AIK \<Rightarrow> blob" where
  "Serialize (AIK20 pub cre att sg) =
     \<lparr>version_tag = tag_of TPMVersion20, inner_fields = [pub, cre, att, sg]\<rparr>"
| "Serialize (AIK12 pub ax) =
     \<lparr>version_tag = tag_of TPMVersion12, inner_fields = [pub, ax]\<rparr>"

fun loadAIK :: "TPMVersion \<Rightarrow> blob \<Rightarrow> load_error + AIK" where
  "loadAIK TPMVersion20 b =
     (if version_tag b \<noteq> tag_of TPMVersion20 then Inl FormatError
      else case inner_fields b of
             [pub, cre, att, sg] \<Rightarrow> Inr (AIK20 pub cre att sg)
           | _ \<Rightarrow> Inl FormatError)"
| "loadAIK TPMVersion12 b =
     (if version_tag b \<noteq> tag_of TPMVersion12 then Inl FormatError
      else case inner_fields b of
             [pub, ax] \<Rightarrow> Inr (AIK12 pub ax)
           | _ \<Rightarrow> Inl FormatError)"

text \<open>The method of the source: the session \<open>t\<close> is given by its version.\<close>

definition LoadAIK :: "TPMVersion \<Rightarrow> blob \<Rightarrow> load_error + AIK" where
  "LoadAIK t opaqueBlob = loadAIK t opaqueBlob"

section \<open>The vendor string\<close>

text \<open>
  C1. The vendor string is to be the four octets of each of the four values,
  most significant first, in the order of the reads, without the NUL
  padding. The function converts the masked values, unshifted, to strings:
  for the vendor string \<open>IBM\<close> (the value \<open>0x49424D00\<close> and three zero values)
  it returns the encodings of U+FFFD, U+FFFD and U+4D00, nine bytes, where
  the octets are \<open>0x49 0x42 0x4D\<close>.
\<close>

theorem readTPM2VendorAttributes_vendor_IBM:
  "readTPM2VendorAttributes scripted_caps [0x49424D00, 0, 0, 0, 0x49424D00, 0x00070002] =
     Returns (Inr \<lparr>vendor = [0xEF, 0xBF, 0xBD, 0xEF, 0xBF, 0xBD, 0xE4, 0xB4, 0x80],
                   manufacturer = 0x49424D00, fwMajor = 7, fwMinor = 2\<rparr>, [])
   \<and> trim_nul (be_octets 0x49424D00 @ be_octets 0 @ be_octets 0 @ be_octets 0) =
       [0x49, 0x42, 0x4D]"
  by code_simp

section \<open>The NVRAM prefix\<close>

text \<open>
  C5. \<open>ParseEKCertificate\<close> is to return a certificate or an error on every
  input. On the six bytes \<open>10 01 00 FF FB 00\<close> the declared length is 65531,
  \<open>certLen+5\<close> wraps to 0, the length check passes, and the slice
  \<open>ekCert[5:0]\<close> panics, whatever the decoder.
\<close>

theorem ParseEKCertificate_panics:
  "ParseEKCertificate lib [0x10, 0x01, 0x00, 0xFF, 0xFB, 0x00] = Panics"
  by (simp add: ParseEKCertificate_def nvram_unwrap_def Uint16_def go_slice_def)

section \<open>Strict and lenient parsing\<close>

lemma fatalError_None: "fatalError lib err = None \<longleftrightarrow> \<not> fatal lib err"
  by (cases err) (auto simp: fatalError_def fatal_def)

lemma fatalError_Some: "fatalError lib err = Some e \<longleftrightarrow> fatal lib err \<and> err = Some e"
  by (cases err) (auto simp: fatalError_def fatal_def)

lemma parseUnwrapped_strict:
  "snd (ParseCertificate lib p) = None \<Longrightarrow>
     parseUnwrapped lib p w = (fst (ParseCertificate lib p), None)"
  by (cases "ParseCertificate lib p") (simp add: parseUnwrapped_def)

lemma parseUnwrapped_lenient_fatal:
  "snd (ParseCertificate lib p) \<noteq> None \<Longrightarrow> fatal lib (snd (UnmarshalLax lib p)) \<Longrightarrow>
     \<exists>e. snd (UnmarshalLax lib p) = Some e \<and>
         parseUnwrapped lib p w = (None, Some (Asn1UnmarshalFailed e w))"
  by (cases "ParseCertificate lib p"; cases "UnmarshalLax lib p")
     (auto simp: parseUnwrapped_def fatalError_def fatal_def split: option.splits)

lemma parseUnwrapped_retry_fatal:
  "snd (ParseCertificate lib p) \<noteq> None \<Longrightarrow> \<not> fatal lib (snd (UnmarshalLax lib p)) \<Longrightarrow>
   fatal lib (snd (ParseCertificate lib (fst (UnmarshalLax lib p)))) \<Longrightarrow>
     \<exists>e. snd (ParseCertificate lib (fst (UnmarshalLax lib p))) = Some e \<and>
         parseUnwrapped lib p w = (None, Some (X509ParseFailed e))"
  by (cases "ParseCertificate lib p"; cases "UnmarshalLax lib p";
      cases "ParseCertificate lib (fst (UnmarshalLax lib p))")
     (auto simp: parseUnwrapped_def fatalError_def fatal_def split: option.splits)

lemma parseUnwrapped_retry_ok:
  "snd (ParseCertificate lib p) \<noteq> None \<Longrightarrow> \<not> fatal lib (snd (UnmarshalLax lib p)) \<Longrightarrow>
   \<not> fatal lib (snd (ParseCertificate lib (fst (UnmarshalLax lib p)))) \<Longrightarrow>
     parseUnwrapped lib p w = (fst (ParseCertificate lib (fst (UnmarshalLax lib p))), None)"
  by (cases "ParseCertificate lib p"; cases "UnmarshalLax lib p";
      cases "ParseCertificate lib (fst (UnmarshalLax lib p))")
     (auto simp: parseUnwrapped_def fatalError_def fatal_def split: option.splits)

lemma ParseEKCertificate_unwrapped:
  "nvram_unwrap ekCert = Returns (Inr (p, w)) \<Longrightarrow>
     ParseEKCertificate lib ekCert = Returns (parseUnwrapped lib p w)"
  by (simp add: ParseEKCertificate_def)

lemma parse_after_prefix:
  assumes "nvram_unwrap ekCert = Returns (Inr (payload, wasWrapped))"
  shows "(snd (ParseCertificate lib payload) = None \<longrightarrow>
            ParseEKCertificate lib ekCert = Returns (fst (ParseCertificate lib payload), None))
       \<and> (snd (ParseCertificate lib payload) \<noteq> None \<and>
            fatal lib (snd (UnmarshalLax lib payload)) \<longrightarrow>
            (\<exists>e. snd (UnmarshalLax lib payload) = Some e \<and>
               ParseEKCertificate lib ekCert =
                 Returns (None, Some (Asn1UnmarshalFailed e wasWrapped))))
       \<and> (snd (ParseCertificate lib payload) \<noteq> None \<and>
            \<not> fatal lib (snd (UnmarshalLax lib payload)) \<and>
            fatal lib (snd (ParseCertificate lib (fst (UnmarshalLax lib payload)))) \<longrightarrow>
            (\<exists>e. snd (ParseCertificate lib (fst (UnmarshalLax lib payload))) = Some e \<and>
               ParseEKCertificate lib ekCert = Returns (None, Some (X509ParseFailed e))))
       \<and> (snd (ParseCertificate lib payload) \<noteq> None \<and>
            \<not> fatal lib (snd (UnmarshalLax lib payload)) \<and>
            \<not> fatal lib (snd (ParseCertificate lib (fst (UnmarshalLax lib payload)))) \<longrightarrow>
            ParseEKCertificate lib ekCert =
              Returns (fst (ParseCertificate lib (fst (UnmarshalLax lib payload))), None))
       \<and> ((\<exists>c e. ParseEKCertificate lib ekCert = Returns (c, Some e)) \<longleftrightarrow>
            snd (ParseCertificate lib payload) \<noteq> None \<and>
            (fatal lib (snd (UnmarshalLax lib payload)) \<or>
             fatal lib (snd (ParseCertificate lib (fst (UnmarshalLax lib payload))))))"
proof -
  note eq = ParseEKCertificate_unwrapped [OF assms, of lib]
  let ?strict = "snd (ParseCertificate lib payload) = None"
  let ?lenient = "fatal lib (snd (UnmarshalLax lib payload))"
  let ?retry = "fatal lib (snd (ParseCertificate lib (fst (UnmarshalLax lib payload))))"
  have a: "?strict \<longrightarrow>
      ParseEKCertificate lib ekCert = Returns (fst (ParseCertificate lib payload), None)"
    by (simp add: eq parseUnwrapped_strict)
  have b: "\<not> ?strict \<and> ?lenient \<longrightarrow>
      (\<exists>e. snd (UnmarshalLax lib payload) = Some e \<and>
         ParseEKCertificate lib ekCert = Returns (None, Some (Asn1UnmarshalFailed e wasWrapped)))"
    using parseUnwrapped_lenient_fatal [of lib payload wasWrapped] by (simp add: eq)
  have c: "\<not> ?strict \<and> \<not> ?lenient \<and> ?retry \<longrightarrow>
      (\<exists>e. snd (ParseCertificate lib (fst (UnmarshalLax lib payload))) = Some e \<and>
         ParseEKCertificate lib ekCert = Returns (None, Some (X509ParseFailed e)))"
    using parseUnwrapped_retry_fatal [of lib payload wasWrapped] by (simp add: eq)
  have d: "\<not> ?strict \<and> \<not> ?lenient \<and> \<not> ?retry \<longrightarrow>
      ParseEKCertificate lib ekCert =
        Returns (fst (ParseCertificate lib (fst (UnmarshalLax lib payload))), None)"
    by (simp add: eq parseUnwrapped_retry_ok)
  have e: "(\<exists>c e. ParseEKCertificate lib ekCert = Returns (c, Some e)) \<longleftrightarrow>
      \<not> ?strict \<and> (?lenient \<or> ?retry)"
  proof (cases ?strict)
    case True
    with a show ?thesis by simp
  next
    case False
    show ?thesis
    proof (cases ?lenient)
      case True
      with False b show ?thesis by auto
    next
      case nl: False
      show ?thesis
      proof (cases ?retry)
        case True
        with False nl c show ?thesis by auto
      next
        case nr: False
        with False nl d show ?thesis by simp
      qed
    qed
  qed
  from a b c d e show ?thesis by blast
qed


lemma Uint16_header:
  "Uint16 [ucast (drop_bit 8 w), ucast w] = (w :: uint16)"
  unfolding Uint16_def
  by (rule bit_word_eqI) (auto simp add: bit_simps)

lemma nvram_unwrap_wrapped_header:
  "nvram_unwrap (nvram_wrapped c trailing) =
     (if c = [] \<and> trailing = [] then Returns (Inr (nvram_wrapped c trailing, False))
      else if 5 + length c + length trailing < unat (of_nat (length c) + 5 :: uint16)
        then Returns (Inl (of_nat (length c)))
      else case go_slice (nvram_wrapped c trailing) 5 (unat (5 + of_nat (length c) :: uint16)) of
             None \<Rightarrow> Panics | Some payload \<Rightarrow> Returns (Inr (payload, True)))"
  by (auto simp add: nvram_unwrap_def nvram_wrapped_def Uint16_header Let_def)

lemma unat_len_plus5:
  "n \<le> 65530 \<Longrightarrow> unat (of_nat n + 5 :: uint16) = n + 5"
  by (simp add: unat_word_ariths unat_of_nat)

lemma unat_len_plus5_wrap:
  "65531 \<le> n \<Longrightarrow> n \<le> 65535 \<Longrightarrow> unat (of_nat n + 5 :: uint16) = n + 5 - 65536"
  by (simp add: unat_word_ariths unat_of_nat mod_if)

lemma nvram_unwrap_wrapped:
  assumes "1 \<le> length c" "length c \<le> 65530"
  shows "nvram_unwrap (nvram_wrapped c trailing) = Returns (Inr (c, True))"
proof -
  have "go_slice (nvram_wrapped c trailing) 5 (length c + 5) = Some c"
    by (simp add: go_slice_def nvram_wrapped_def)
  moreover from assms have "c \<noteq> []" by auto
  ultimately show ?thesis using assms
    by (simp add: nvram_unwrap_wrapped_header unat_len_plus5 add.commute [of 5])
qed

lemma nvram_unwrap_wrapped_panics:
  assumes "65531 \<le> length c" "length c \<le> 65535"
  shows "nvram_unwrap (nvram_wrapped c trailing) = Panics"
proof -
  have "go_slice (nvram_wrapped c trailing) 5 (length c + 5 - 65536) = None"
    using assms by (simp add: go_slice_def)
  moreover from assms have "c \<noteq> []" by auto
  ultimately show ?thesis using assms
    by (simp add: nvram_unwrap_wrapped_header unat_len_plus5_wrap add.commute [of 5])
qed

lemma nvram_unwrap_plain:
  "\<not> has_nvram_header c \<Longrightarrow> nvram_unwrap c = Returns (Inr (c, False))"
  by (auto simp add: nvram_unwrap_def has_nvram_header_def)

lemma parseUnwrapped_wasWrapped:
  "fst (parseUnwrapped lib c w) = fst (parseUnwrapped lib c w') \<and>
   map_option (with_wasWrapped w') (snd (parseUnwrapped lib c w)) = snd (parseUnwrapped lib c w')"
  by (simp add: parseUnwrapped_def split: prod.splits option.splits)


text \<open>
  C4, as amended. For every \<open>c\<close> of 1 to 65530 bytes and every trailing bytes,
  \<open>ParseEKCertificate\<close> on the wrapped input parses exactly \<open>c\<close>, with
  \<open>wasWrapped\<close> set. When \<open>c\<close> does not itself begin with an NVRAM prefix, the
  result on \<open>c\<close> alone is the same certificate and the same error, but for
  the \<open>wasWrapped\<close> that the message of the lenient-decoding error prints.
\<close>

theorem ParseEKCertificate_wrapped:
  assumes "1 \<le> length c" "length c \<le> 65530"
  shows "nvram_unwrap (nvram_wrapped c trailing) = Returns (Inr (c, True))
       \<and> ParseEKCertificate lib (nvram_wrapped c trailing) = Returns (parseUnwrapped lib c True)
       \<and> (\<not> has_nvram_header c \<longrightarrow>
            (\<exists>cert err.
               ParseEKCertificate lib (nvram_wrapped c trailing) = Returns (cert, err) \<and>
               ParseEKCertificate lib c = Returns (cert, map_option (with_wasWrapped False) err)))"
proof (intro conjI impI)
  show u: "nvram_unwrap (nvram_wrapped c trailing) = Returns (Inr (c, True))"
    using assms by (rule nvram_unwrap_wrapped)
  then show w: "ParseEKCertificate lib (nvram_wrapped c trailing) =
      Returns (parseUnwrapped lib c True)"
    by (simp add: ParseEKCertificate_def)
  assume "\<not> has_nvram_header c"
  then have "ParseEKCertificate lib c = Returns (parseUnwrapped lib c False)"
    by (simp add: ParseEKCertificate_def nvram_unwrap_plain)
  moreover obtain cert err where p: "parseUnwrapped lib c True = (cert, err)"
    by (cases "parseUnwrapped lib c True")
  moreover have "parseUnwrapped lib c False = (cert, map_option (with_wasWrapped False) err)"
    using parseUnwrapped_wasWrapped [of lib c True False] p
    by (cases "parseUnwrapped lib c False") simp
  ultimately show "\<exists>cert err.
      ParseEKCertificate lib (nvram_wrapped c trailing) = Returns (cert, err) \<and>
      ParseEKCertificate lib c = Returns (cert, map_option (with_wasWrapped False) err)"
    using w by simp
qed

lemma toy_parseUnwrapped:
  "parseUnwrapped toy_x509 [0x30, 1, 0xAA] w = (Some [0xAA], None)"
  "parseUnwrapped toy_x509 [0x31] w = (None, Some (Asn1UnmarshalFailed Truncated w))"
  "parseUnwrapped toy_x509 [0x30, 0x01, 0x05] w = (Some [0x05], None)"
  "parseUnwrapped toy_x509 [0x10, 0x01, 0x00, 0x00, 0x03, 0x30, 0x01, 0x05] w =
     (None, Some (X509ParseFailed BadTag))"
  by (simp_all add: parseUnwrapped_def toy_x509_def toy_parse_def toy_unmarshal_def
      toy_fatal_def fatal_def fatalError_def)

theorem ParseEKCertificate_wrapped_witness:
  "nvram_unwrap (nvram_wrapped [0x30, 1, 0xAA] [0xFF, 0xFF]) = Returns (Inr ([0x30, 1, 0xAA], True))
   \<and> ParseEKCertificate toy_x509 (nvram_wrapped [0x30, 1, 0xAA] [0xFF, 0xFF]) =
       Returns (Some [0xAA], None)
   \<and> ParseEKCertificate toy_x509 [0x30, 1, 0xAA] = Returns (Some [0xAA], None)
   \<and> ParseEKCertificate toy_x509 (nvram_wrapped [0x31] []) =
       Returns (None, Some (Asn1UnmarshalFailed Truncated True))
   \<and> ParseEKCertificate toy_x509 [0x31] =
       Returns (None, Some (Asn1UnmarshalFailed Truncated False))"
proof -
  have h: "\<not> has_nvram_header [0x30, 1, 0xAA]" "\<not> has_nvram_header [0x31]"
    by (simp_all add: has_nvram_header_def)
  have a: "1 \<le> length [0x30, 1, 0xAA :: byte]" "length [0x30, 1, 0xAA :: byte] \<le> 65530"
    and b: "1 \<le> length [0x31 :: byte]" "length [0x31 :: byte] \<le> 65530"
    by simp_all
  show ?thesis
    using ParseEKCertificate_wrapped [OF a, of "[0xFF, 0xFF]" toy_x509]
      ParseEKCertificate_wrapped [OF b, of "[]" toy_x509] h
    by (auto simp add: toy_parseUnwrapped)
qed

text \<open>
  C4, as stated, fails: the error for the wrapped \<open>0x31\<close> prints
  \<open>wasWrapped=true\<close> and the one for \<open>0x31\<close> alone \<open>wasWrapped=false\<close>; a
  payload that itself carries a prefix is unwrapped once more when given
  alone; and a wrapped payload of 65531 bytes panics.
\<close>

theorem ParseEKCertificate_wrapped_counterexample:
  "ParseEKCertificate toy_x509 (nvram_wrapped [0x31] []) \<noteq> ParseEKCertificate toy_x509 [0x31]
   \<and> ParseEKCertificate toy_x509 (nvram_wrapped [0x10, 0x01, 0x00, 0x00, 0x03, 0x30, 0x01, 0x05] []) \<noteq>
       ParseEKCertificate toy_x509 [0x10, 0x01, 0x00, 0x00, 0x03, 0x30, 0x01, 0x05]
   \<and> ParseEKCertificate toy_x509 (nvram_wrapped (replicate 65531 0) []) = Panics
   \<and> ParseEKCertificate toy_x509 (replicate 65531 0) \<noteq> Panics"
proof (intro conjI)
  have "nvram_unwrap (nvram_wrapped [0x31] []) = Returns (Inr ([0x31], True))"
    by (rule nvram_unwrap_wrapped) simp_all
  moreover have "nvram_unwrap [0x31] = Returns (Inr ([0x31], False))"
    by (rule nvram_unwrap_plain) (simp add: has_nvram_header_def)
  ultimately show "ParseEKCertificate toy_x509 (nvram_wrapped [0x31] []) \<noteq>
      ParseEKCertificate toy_x509 [0x31]"
    by (simp add: ParseEKCertificate_def toy_parseUnwrapped)
  have "nvram_unwrap (nvram_wrapped [0x10, 0x01, 0x00, 0x00, 0x03, 0x30, 0x01, 0x05] []) =
      Returns (Inr ([0x10, 0x01, 0x00, 0x00, 0x03, 0x30, 0x01, 0x05], True))"
    by (rule nvram_unwrap_wrapped) simp_all
  moreover have "nvram_unwrap [0x10, 0x01, 0x00, 0x00, 0x03, 0x30, 0x01, 0x05] =
      Returns (Inr ([0x30, 0x01, 0x05], True))"
    by (simp add: nvram_unwrap_def Uint16_def go_slice_def)
  ultimately show
    "ParseEKCertificate toy_x509 (nvram_wrapped [0x10, 0x01, 0x00, 0x00, 0x03, 0x30, 0x01, 0x05] []) \<noteq>
      ParseEKCertificate toy_x509 [0x10, 0x01, 0x00, 0x00, 0x03, 0x30, 0x01, 0x05]"
    by (simp add: ParseEKCertificate_def toy_parseUnwrapped)
  have "nvram_unwrap (nvram_wrapped (replicate 65531 0) []) = Panics"
    by (rule nvram_unwrap_wrapped_panics) simp_all
  then show "ParseEKCertificate toy_x509 (nvram_wrapped (replicate 65531 0) []) = Panics"
    by (simp add: ParseEKCertificate_def)
  have "\<not> has_nvram_header (replicate 65531 0)"
    by (simp add: has_nvram_header_def numeral_3_eq_3)
  then show "ParseEKCertificate toy_x509 (replicate 65531 0) \<noteq> Panics"
    by (simp add: ParseEKCertificate_def nvram_unwrap_plain)
qed

section \<open>The header check and the two parses\<close>

lemma unat_plus5:
  "unat w \<le> 65530 \<Longrightarrow> unat (w + 5 :: uint16) = unat w + 5"
  by (simp add: unat_word_ariths)

lemma nvram_unwrap_cases:
  assumes "has_nvram_header ekCert \<Longrightarrow> unat (declaredLen ekCert) \<le> 65530"
  shows "nvram_unwrap ekCert =
     (if header_short ekCert then Returns (Inl (declaredLen ekCert))
      else Returns (Inr (prefix_payload ekCert, has_nvram_header ekCert)))"
proof (cases "has_nvram_header ekCert")
  case False
  then show ?thesis
    by (simp add: nvram_unwrap_plain header_short_def prefix_payload_def)
next
  case True
  with assms have n: "unat (declaredLen ekCert + 5) = unat (declaredLen ekCert) + 5"
    by (simp add: unat_plus5)
  then have m: "unat (5 + declaredLen ekCert) = unat (declaredLen ekCert) + 5"
    by (simp add: add.commute)
  from True have h: "5 < length ekCert \<and> take 3 ekCert = [0x10, 0x01, 0x00]"
    by (simp add: has_nvram_header_def)
  show ?thesis
  proof (cases "length ekCert < unat (declaredLen ekCert) + 5")
    case short: True
    with True h n show ?thesis
      by (simp add: nvram_unwrap_def header_short_def declaredLen_def [symmetric] Let_def)
  next
    case long: False
    then have "go_slice ekCert 5 (unat (declaredLen ekCert) + 5) =
        Some (take (unat (declaredLen ekCert)) (drop 5 ekCert))"
      by (simp add: go_slice_def)
    with True h n m long show ?thesis
      by (simp add: nvram_unwrap_def header_short_def prefix_payload_def
          declaredLen_def [symmetric] Let_def)
  qed
qed

text \<open>
  C3, as amended. For every input whose prefix, when it has one, declares at
  most 65530 bytes: when the prefix is there and the input is shorter than
  the declared length plus 5, \<open>ParseEKCertificate\<close> returns the header error
  and decodes nothing. Otherwise it first parses the bytes left by the prefix
  check strictly and returns that certificate when the parse reports no
  error; when it reports one, the lenient decoder extracts the raw
  certificate and the strict parse is tried again on it. An error is
  returned exactly when the header check fails, or the first parse reported
  an error and the lenient extraction or the second parse reports a fatal
  one; a fatal error of those two steps is the error returned.
\<close>

theorem ParseEKCertificate_header_strict_lenient:
  assumes "has_nvram_header ekCert \<Longrightarrow> unat (declaredLen ekCert) \<le> 65530"
  shows "(header_short ekCert \<longrightarrow>
            ParseEKCertificate lib ekCert =
              Returns (None, Some (NVRAMHeader (length ekCert) (declaredLen ekCert))))
       \<and> (\<not> header_short ekCert \<and>
            snd (ParseCertificate lib (prefix_payload ekCert)) = None \<longrightarrow>
            ParseEKCertificate lib ekCert =
              Returns (fst (ParseCertificate lib (prefix_payload ekCert)), None))
       \<and> (\<not> header_short ekCert \<and>
            snd (ParseCertificate lib (prefix_payload ekCert)) \<noteq> None \<and>
            fatal lib (snd (UnmarshalLax lib (prefix_payload ekCert))) \<longrightarrow>
            (\<exists>e. snd (UnmarshalLax lib (prefix_payload ekCert)) = Some e \<and>
               ParseEKCertificate lib ekCert =
                 Returns (None, Some (Asn1UnmarshalFailed e (has_nvram_header ekCert)))))
       \<and> (\<not> header_short ekCert \<and>
            snd (ParseCertificate lib (prefix_payload ekCert)) \<noteq> None \<and>
            \<not> fatal lib (snd (UnmarshalLax lib (prefix_payload ekCert))) \<and>
            fatal lib (snd (ParseCertificate lib (fst (UnmarshalLax lib (prefix_payload ekCert))))) \<longrightarrow>
            (\<exists>e. snd (ParseCertificate lib (fst (UnmarshalLax lib (prefix_payload ekCert)))) = Some e \<and>
               ParseEKCertificate lib ekCert = Returns (None, Some (X509ParseFailed e))))
       \<and> (\<not> header_short ekCert \<and>
            snd (ParseCertificate lib (prefix_payload ekCert)) \<noteq> None \<and>
            \<not> fatal lib (snd (UnmarshalLax lib (prefix_payload ekCert))) \<and>
            \<not> fatal lib (snd (ParseCertificate lib (fst (UnmarshalLax lib (prefix_payload ekCert))))) \<longrightarrow>
            ParseEKCertificate lib ekCert =
              Returns (fst (ParseCertificate lib (fst (UnmarshalLax lib (prefix_payload ekCert)))), None))
       \<and> ((\<exists>c e. ParseEKCertificate lib ekCert = Returns (c, Some e)) \<longleftrightarrow>
            header_short ekCert \<or>
            snd (ParseCertificate lib (prefix_payload ekCert)) \<noteq> None \<and>
            (fatal lib (snd (UnmarshalLax lib (prefix_payload ekCert))) \<or>
             fatal lib (snd (ParseCertificate lib (fst (UnmarshalLax lib (prefix_payload ekCert)))))))"
proof (cases "header_short ekCert")
  case True
  with nvram_unwrap_cases [OF assms] have
    "ParseEKCertificate lib ekCert =
       Returns (None, Some (NVRAMHeader (length ekCert) (declaredLen ekCert)))"
    by (simp add: ParseEKCertificate_def)
  with True show ?thesis by simp
next
  case False
  with nvram_unwrap_cases [OF assms] have
    "nvram_unwrap ekCert = Returns (Inr (prefix_payload ekCert, has_nvram_header ekCert))"
    by simp
  from parse_after_prefix [OF this, of lib] False show ?thesis
    by simp
qed

theorem ParseEKCertificate_header_strict_lenient_witness:
  "ParseEKCertificate toy_x509 [0x10, 0x01, 0x00, 0x00, 0x10, 0x00] =
     Returns (None, Some (NVRAMHeader 6 16))
   \<and> ParseEKCertificate toy_x509 [0x10, 0x01, 0x00, 0x00, 0x03, 0x30, 0x01, 0xAA, 0xFF] =
       Returns (Some [0xAA], None)
   \<and> ParseEKCertificate toy_x509 [0x30, 1, 0xAA, 0xFF] = Returns (Some [0xAA], None)
   \<and> ParseEKCertificate toy_x509 [0x10, 0x01, 0x00, 0x00, 0x01, 0x31] =
       Returns (None, Some (Asn1UnmarshalFailed Truncated True))
   \<and> ParseEKCertificate toy_x509 [0x31, 1, 0xAA, 0xFF] =
       Returns (None, Some (X509ParseFailed BadTag))
   \<and> ParseEKCertificate toy_x509 [0x30, 0, 0xFF] = Returns (Some [], None)"
proof -
  note t = ParseEKCertificate_header_strict_lenient [where lib = toy_x509]
  have d: "declaredLen [0x10, 0x01, 0x00, 0x00, 0x10, 0x00] = 16"
    "declaredLen [0x10, 0x01, 0x00, 0x00, 0x03, 0x30, 0x01, 0xAA, 0xFF] = 3"
    "declaredLen [0x10, 0x01, 0x00, 0x00, 0x01, 0x31] = 1"
    by (simp_all add: declaredLen_def Uint16_def)
  have h: "has_nvram_header [0x10, 0x01, 0x00, 0x00, 0x10, 0x00]"
    "has_nvram_header [0x10, 0x01, 0x00, 0x00, 0x03, 0x30, 0x01, 0xAA, 0xFF]"
    "has_nvram_header [0x10, 0x01, 0x00, 0x00, 0x01, 0x31]"
    "\<not> has_nvram_header [0x30, 1, 0xAA, 0xFF]"
    "\<not> has_nvram_header [0x31, 1, 0xAA, 0xFF]"
    "\<not> has_nvram_header [0x30, 0, 0xFF]"
    by (simp_all add: has_nvram_header_def)
  show ?thesis
    using t [of "[0x10, 0x01, 0x00, 0x00, 0x10, 0x00]"]
      t [of "[0x10, 0x01, 0x00, 0x00, 0x03, 0x30, 0x01, 0xAA, 0xFF]"]
      t [of "[0x30, 1, 0xAA, 0xFF]"]
      t [of "[0x10, 0x01, 0x00, 0x00, 0x01, 0x31]"]
      t [of "[0x31, 1, 0xAA, 0xFF]"]
      t [of "[0x30, 0, 0xFF]"]
    by (simp add: d h header_short_def prefix_payload_def toy_x509_def toy_parse_def
        toy_unmarshal_def toy_fatal_def fatal_def)
qed

text \<open>
  C3, as stated, fails: on \<open>10 01 00 00 10 00\<close> the prefix declares 16 bytes
  where one follows, and an error is returned though the decoder, which
  reports no error on any of these bytes, is never called.
\<close>

theorem ParseEKCertificate_header_error_counterexample:
  "ParseEKCertificate accepting_x509 [0x10, 0x01, 0x00, 0x00, 0x10, 0x00] =
     Returns (None, Some (NVRAMHeader 6 16))
   \<and> snd (ParseCertificate accepting_x509 [0x10, 0x01, 0x00, 0x00, 0x10, 0x00]) = None
   \<and> \<not> fatal accepting_x509 (snd (UnmarshalLax accepting_x509 [0x10, 0x01, 0x00, 0x00, 0x10, 0x00]))
   \<and> \<not> fatal accepting_x509 (snd (ParseCertificate accepting_x509
         (fst (UnmarshalLax accepting_x509 [0x10, 0x01, 0x00, 0x00, 0x10, 0x00]))))
   \<and> snd (ParseCertificate accepting_x509 [0x00]) = None
   \<and> \<not> fatal accepting_x509 (snd (UnmarshalLax accepting_x509 [0x00]))
   \<and> \<not> fatal accepting_x509 (snd (ParseCertificate accepting_x509
         (fst (UnmarshalLax accepting_x509 [0x00]))))"
  by (simp add: ParseEKCertificate_def nvram_unwrap_def Uint16_def accepting_x509_def fatal_def)

section \<open>Reading the PCR bank\<close>

lemma missingLoop_eq:
  "missingLoop out n pcr acc =
     acc @ filter (\<lambda>p. map_of out (word_of_int p) = None) [pcr..pcr + int n - 1]"
proof (induction n arbitrary: pcr acc)
  case 0
  then show ?case by simp
next
  case (Suc n)
  have "[pcr..pcr + int (Suc n) - 1] = pcr # [pcr + 1..pcr + 1 + int n - 1]"
    by (subst upto_rec1) simp_all
  with Suc show ?case by simp
qed

lemma storeLoop_keys:
  "fst ` set (storeLoop out ret) = fst ` set out \<union> word_of_int ` fst ` set ret"
proof (induction out ret rule: storeLoop.induct)
  case (1 out)
  then show ?case by simp
next
  case (2 out pcr digest ret)
  have "fst ` set (AList.update (word_of_int pcr) digest out) =
      insert (word_of_int pcr) (fst ` set out)"
    by (simp add: AList.dom_update)
  with 2 show ?case by simp
qed

lemma storeLoop_distinct:
  "distinct (map fst out) \<Longrightarrow> distinct (map fst (storeLoop out ret))"
  by (induction out ret rule: storeLoop.induct) (auto simp add: distinct_update)

lemma supplied_append: "supplied (a @ b) = supplied a @ supplied b"
  by (simp add: supplied_def)

lemma supplied_single: "supplied [(q, Inr ret)] = map fst ret" "supplied [(q, Inl e)] = []"
  by (simp_all add: supplied_def)

lemma word_of_int_inj_pcr: "inj_on (word_of_int :: int \<Rightarrow> uint32) {0..23}"
proof (rule inj_onI)
  fix x y :: int
  assume x: "x \<in> {0..23}" and y: "y \<in> {0..23}"
    and e: "(word_of_int x :: uint32) = word_of_int y"
  from e have "take_bit 32 x = take_bit 32 y"
    by (simp add: word_of_int_eq_iff)
  moreover from x have "take_bit 32 x = x" by (simp add: take_bit_int_eq_self)
  moreover from y have "take_bit 32 y = y" by (simp add: take_bit_int_eq_self)
  ultimately show "x = y" by simp
qed

lemma missing_by_journal:
  assumes "pcr_inv out journal"
  shows "missingLoop out numPCRs 0 [] = filter (\<lambda>p. p \<notin> set (supplied journal)) [0..23]"
proof -
  have "map_of out (word_of_int p) = None \<longleftrightarrow> p \<notin> set (supplied journal)"
    if "p \<in> set [0..23]" for p
  proof -
    from that have p: "p \<in> {0..23}" by simp
    have "map_of out (word_of_int p) = None \<longleftrightarrow> word_of_int p \<notin> set (map fst out)"
      by (simp add: map_of_eq_None_iff)
    also have "\<dots> \<longleftrightarrow> (word_of_int p :: uint32) \<notin> word_of_int ` set (supplied journal)"
      using assms by (simp add: pcr_inv_def)
    also have "\<dots> \<longleftrightarrow> p \<notin> set (supplied journal)"
      using assms p inj_on_image_mem_iff [OF word_of_int_inj_pcr, of p "set (supplied journal)"]
      by (simp add: pcr_inv_def)
    finally show ?thesis .
  qed
  then have "filter (\<lambda>p. map_of out (word_of_int p) = None) [0..23] =
      filter (\<lambda>p. p \<notin> set (supplied journal)) [0..23]"
    by (intro filter_cong refl)
  then show ?thesis by (simp add: missingLoop_eq numPCRs_def)
qed

lemma pcr_inv_store:
  assumes "pcr_inv out journal" "set (map fst ret) \<subseteq> {0..23}"
  shows "pcr_inv (storeLoop out ret) (journal @ [(q, Inr ret)])"
proof -
  have "fst ` set (storeLoop out ret) =
      word_of_int ` (set (supplied journal) \<union> fst ` set ret)"
    using assms by (simp add: storeLoop_keys pcr_inv_def image_Un)
  with assms show ?thesis
    by (simp add: pcr_inv_def storeLoop_distinct supplied_append supplied_single)
qed


lemma pcrLoop_recording:
  assumes aw: "answers_within tpm"
  shows "pcr_inv out journal \<Longrightarrow>
    \<exists>ext. fst (snd (pcrLoop (recording tpm) alg n (journal, s) out)) = journal @ ext \<and>
      length ext \<le> n \<and>
      (\<forall>i<length ext. fst (ext ! i) =
         \<lparr>Hash = alg,
          PCRs = filter (\<lambda>p. p \<notin> set (supplied (journal @ take i ext))) [0..23]\<rparr>) \<and>
      (\<forall>out'. fst (pcrLoop (recording tpm) alg n (journal, s) out) = Inr out' \<longrightarrow>
         pcr_inv out' (journal @ ext))"
proof (induction n arbitrary: journal s out)
  case 0
  then show ?case by simp
next
  case (Suc n)
  define q where "q = \<lparr>Hash = alg, PCRs = filter (\<lambda>p. p \<notin> set (supplied journal)) [0..23]\<rparr>"
  have q: "\<lparr>Hash = alg, PCRs = missingLoop out numPCRs 0 []\<rparr> = q"
    using missing_by_journal [OF Suc.prems] by (simp add: q_def)
  obtain r s1 where t: "tpm s q = (r, s1)"
    by (cases "tpm s q")
  then have rec: "recording tpm (journal, s) q = (r, (journal @ [(q, r)], s1))"
    by (simp add: recording_def)
  have first: "fst ([(q, r)] ! 0) =
      \<lparr>Hash = alg, PCRs = filter (\<lambda>p. p \<notin> set (supplied (journal @ take 0 [(q, r)]))) [0..23]\<rparr>"
    by (simp add: q_def)
  show ?case
  proof (cases r)
    case (Inl err)
    with q rec have "pcrLoop (recording tpm) alg (Suc n) (journal, s) out =
        (Inl (ReadPCRsFailed q err), (journal @ [(q, r)], s1))"
      by (simp add: Let_def)
    with first show ?thesis
      by (intro exI [of _ "[(q, r)]"]) simp
  next
    case (Inr ret)
    from aw have "case fst (tpm s q) of Inl _ \<Rightarrow> True
        | Inr ret \<Rightarrow> set (map fst ret) \<subseteq> set (PCRs q)"
      unfolding answers_within_def by blast
    with t Inr have "set (map fst ret) \<subseteq> set (PCRs q)" by simp
    then have "set (map fst ret) \<subseteq> {0..23}" by (auto simp add: q_def)
    with Suc.prems have inv': "pcr_inv (storeLoop out ret) (journal @ [(q, r)])"
      unfolding Inr by (rule pcr_inv_store)
    show ?thesis
    proof (cases "length (storeLoop out ret) = numPCRs")
      case True
      with q rec Inr have "pcrLoop (recording tpm) alg (Suc n) (journal, s) out =
          (Inr (storeLoop out ret), (journal @ [(q, r)], s1))"
        by (simp add: Let_def)
      with first inv' show ?thesis
        by (intro exI [of _ "[(q, r)]"]) simp
    next
      case False
      with q rec Inr have eq: "pcrLoop (recording tpm) alg (Suc n) (journal, s) out =
          pcrLoop (recording tpm) alg n (journal @ [(q, r)], s1) (storeLoop out ret)"
        by (simp add: Let_def)
      from Suc.IH [OF inv', of s1] obtain ext where
        j: "fst (snd (pcrLoop (recording tpm) alg n (journal @ [(q, r)], s1) (storeLoop out ret))) =
            (journal @ [(q, r)]) @ ext"
        and l: "length ext \<le> n"
        and i: "\<forall>i<length ext. fst (ext ! i) =
            \<lparr>Hash = alg,
             PCRs = filter (\<lambda>p. p \<notin> set (supplied ((journal @ [(q, r)]) @ take i ext)))
                      [0..23]\<rparr>"
        and v: "\<forall>out'. fst (pcrLoop (recording tpm) alg n (journal @ [(q, r)], s1)
                  (storeLoop out ret)) = Inr out' \<longrightarrow>
            pcr_inv out' ((journal @ [(q, r)]) @ ext)"
        by blast
      have "\<forall>k<length ((q, r) # ext). fst (((q, r) # ext) ! k) =
          \<lparr>Hash = alg,
           PCRs = filter (\<lambda>p. p \<notin> set (supplied (journal @ take k ((q, r) # ext)))) [0..23]\<rparr>"
      proof (intro allI impI)
        fix k
        assume k: "k < length ((q, r) # ext)"
        show "fst (((q, r) # ext) ! k) =
          \<lparr>Hash = alg,
           PCRs = filter (\<lambda>p. p \<notin> set (supplied (journal @ take k ((q, r) # ext)))) [0..23]\<rparr>"
        proof (cases k)
          case 0
          then show ?thesis by (simp add: q_def)
        next
          case (Suc m)
          with k i show ?thesis by simp
        qed
      qed
      with eq j l v show ?thesis
        by (intro exI [of _ "(q, r) # ext"]) simp
    qed
  qed
qed

lemma pcrLoop_recording_result:
  "fst (pcrLoop (recording tpm) alg n (journal, s) out) = fst (pcrLoop tpm alg n s out)"
proof (induction n arbitrary: journal s out)
  case 0
  then show ?case by simp
next
  case (Suc n)
  then show ?case
    by (simp add: recording_def Let_def split: prod.splits sum.splits)
qed

lemma readAllPCRs20_fst:
  "fst (readAllPCRs20 tpm s alg) = Inr out \<longleftrightarrow>
     fst (pcrLoop tpm alg numPCRs s []) = Inr out \<and> length out = numPCRs"
  by (auto simp add: readAllPCRs20_def split: prod.splits sum.splits)

lemma readAllPCRs20_snd:
  "snd (readAllPCRs20 tpm s alg) = snd (pcrLoop tpm alg numPCRs s [])"
  by (simp add: readAllPCRs20_def split: prod.splits sum.splits)

lemma readAllPCRs20_recording_result:
  "fst (readAllPCRs20 (recording tpm) (journal, s) alg) = fst (readAllPCRs20 tpm s alg)"
  using pcrLoop_recording_result [of tpm alg numPCRs journal s "[]"]
  by (cases "pcrLoop (recording tpm) alg numPCRs (journal, s) []";
      cases "pcrLoop tpm alg numPCRs s []")
     (simp add: readAllPCRs20_def split: sum.splits)

lemma pcr_inv_complete:
  assumes "pcr_inv out journal" "length out = 24"
  shows "set (map fst out) = word_of_int ` {0..23}"
proof -
  from assms have "distinct (map fst out)"
    by (simp add: pcr_inv_def)
  then have "card (set (map fst out)) = length (map fst out)"
    by (rule distinct_card)
  with assms have "card (set (map fst out)) = 24"
    by simp
  moreover have "card ((word_of_int :: int \<Rightarrow> uint32) ` {0..23}) = 24"
    by (simp add: card_image [OF word_of_int_inj_pcr])
  moreover from assms have "set (map fst out) \<subseteq> word_of_int ` {0..23}"
    by (auto simp add: pcr_inv_def)
  ultimately show ?thesis
    by (intro card_subset_eq) simp_all
qed

text \<open>
  C2. On a device whose every answer supplies only indices it was asked
  for, \<open>readAllPCRs20\<close> sends at most 24 commands; each asks, under the hash
  algorithm given, for exactly the indices of 0..23 that no earlier answer
  has supplied; and a map, when one is returned, has 24 entries with
  distinct keys, the indices 0 to 23, each with a digest. Otherwise an error
  is returned. The function is total: the loop is counted down from 24.
\<close>

theorem readAllPCRs20_bounded_complete:
  assumes "answers_within tpm"
  shows "length (readAllPCRs20_journal tpm s alg) \<le> 24
       \<and> (\<forall>i<length (readAllPCRs20_journal tpm s alg).
            fst (readAllPCRs20_journal tpm s alg ! i) =
              \<lparr>Hash = alg,
               PCRs = filter (\<lambda>p. p \<notin> set (supplied (take i (readAllPCRs20_journal tpm s alg))))
                        [0..23]\<rparr>)
       \<and> (\<forall>out. fst (readAllPCRs20 tpm s alg) = Inr out \<longrightarrow>
            length out = 24 \<and> distinct (map fst out) \<and>
            set (map fst out) = word_of_int ` {0..23} \<and>
            (\<forall>p\<in>{0..23}. \<exists>digest. map_of out (word_of_int p) = Some digest))"
proof -
  have "pcr_inv [] []"
    by (simp add: pcr_inv_def supplied_def)
  from pcrLoop_recording [OF assms this, of alg numPCRs s] obtain ext where
    j: "fst (snd (pcrLoop (recording tpm) alg numPCRs ([], s) [])) = ext"
    and l: "length ext \<le> numPCRs"
    and i: "\<forall>i<length ext. fst (ext ! i) =
        \<lparr>Hash = alg, PCRs = filter (\<lambda>p. p \<notin> set (supplied (take i ext))) [0..23]\<rparr>"
    and v: "\<forall>out'. fst (pcrLoop (recording tpm) alg numPCRs ([], s) []) = Inr out' \<longrightarrow>
        pcr_inv out' ext"
    by auto
  have J: "readAllPCRs20_journal tpm s alg = ext"
    by (simp add: readAllPCRs20_journal_def readAllPCRs20_snd j)
  have "length out = 24 \<and> distinct (map fst out) \<and>
      set (map fst out) = word_of_int ` {0..23} \<and>
      (\<forall>p\<in>{0..23}. \<exists>digest. map_of out (word_of_int p) = Some digest)"
    if "fst (readAllPCRs20 tpm s alg) = Inr out" for out
  proof -
    from that have "fst (pcrLoop tpm alg numPCRs s []) = Inr out" and n: "length out = 24"
      by (simp_all add: readAllPCRs20_fst numPCRs_def)
    then have "fst (pcrLoop (recording tpm) alg numPCRs ([], s) []) = Inr out"
      by (simp add: pcrLoop_recording_result)
    with v have inv: "pcr_inv out ext" by blast
    then have keys: "set (map fst out) = word_of_int ` {0..23}"
      using n by (rule pcr_inv_complete)
    have "\<exists>digest. map_of out (word_of_int p) = Some digest" if "p \<in> {0..23}" for p
    proof -
      from that keys have "(word_of_int p :: uint32) \<in> set (map fst out)" by blast
      then have "map_of out (word_of_int p) \<noteq> None"
        by (simp add: map_of_eq_None_iff)
      then show ?thesis by blast
    qed
    with inv n keys show ?thesis by (simp add: pcr_inv_def)
  qed
  moreover from l have "length ext \<le> 24"
    by (simp add: numPCRs_def)
  ultimately show ?thesis
    unfolding J using i by blast
qed


lemma answers_within_eight: "answers_within eight_at_a_time"
  by (auto simp add: answers_within_def eight_at_a_time_def dest: in_set_takeD)

theorem readAllPCRs20_bounded_complete_witness:
  "answers_within eight_at_a_time
   \<and> map (\<lambda>c. PCRs (fst c)) (readAllPCRs20_journal eight_at_a_time 0 0x000B) =
       [[0, 1, 2, 3, 4, 5, 6, 7, 8, 9, 10, 11, 12, 13, 14, 15, 16, 17, 18, 19, 20, 21, 22, 23],
        [8, 9, 10, 11, 12, 13, 14, 15, 16, 17, 18, 19, 20, 21, 22, 23],
        [16, 17, 18, 19, 20, 21, 22, 23]]
   \<and> fst (readAllPCRs20 eight_at_a_time 0 0x000B) =
       Inr [(0, [0]), (1, [1]), (2, [2]), (3, [3]), (4, [4]), (5, [5]), (6, [6]), (7, [7]), (8, [8]), (9, [9]), (10, [10]), (11, [11]), (12, [12]), (13, [13]), (14, [14]), (15, [15]), (16, [16]), (17, [17]), (18, [18]), (19, [19]), (20, [20]), (21, [21]), (22, [22]), (23, [23])]
   \<and> length (readAllPCRs20_journal eight_at_a_time 0 0x000B) \<le> 24"
proof -
  have j: "map (\<lambda>c. PCRs (fst c)) (readAllPCRs20_journal eight_at_a_time 0 0x000B) =
       [[0, 1, 2, 3, 4, 5, 6, 7, 8, 9, 10, 11, 12, 13, 14, 15, 16, 17, 18, 19, 20, 21, 22, 23],
        [8, 9, 10, 11, 12, 13, 14, 15, 16, 17, 18, 19, 20, 21, 22, 23],
        [16, 17, 18, 19, 20, 21, 22, 23]]"
    by code_simp
  have r: "fst (readAllPCRs20 eight_at_a_time 0 0x000B) =
       Inr [(0, [0]), (1, [1]), (2, [2]), (3, [3]), (4, [4]), (5, [5]), (6, [6]), (7, [7]), (8, [8]), (9, [9]), (10, [10]), (11, [11]), (12, [12]), (13, [13]), (14, [14]), (15, [15]), (16, [16]), (17, [17]), (18, [18]), (19, [19]), (20, [20]), (21, [21]), (22, [22]), (23, [23])]"
    by code_simp
  from readAllPCRs20_bounded_complete [OF answers_within_eight, of 0 "0x000B"] j r
  show ?thesis
    using answers_within_eight by blast
qed

section \<open>The quote\<close>

lemma selectLoop_eq: "selectLoop n pcr acc = acc @ [pcr..pcr + int n - 1]"
proof (induction n arbitrary: pcr acc)
  case 0
  then show ?case by simp
next
  case (Suc n)
  have "[pcr..pcr + int (Suc n) - 1] = pcr # [pcr + 1..pcr + 1 + int n - 1]"
    by (subst upto_rec1) simp_all
  with Suc show ?case by simp
qed

lemma selectLoop_24: "selectLoop 24 0 [] = [0..23]"
  by (simp add: selectLoop_eq)

lemma quote20_journal:
  "snd (quote20 (recording tpm) pack (journal, s) aikHandle hashAlg nonce) =
     (journal @ [(quoteCommand aikHandle hashAlg nonce,
                  fst (tpm s (quoteCommand aikHandle hashAlg nonce)))],
      snd (tpm s (quoteCommand aikHandle hashAlg nonce)))"
  unfolding quote20_def selectLoop_24 recording_def quoteCommand_def Let_def
  by (simp split: prod.splits option.splits)

lemma quote20_result_recording:
  "fst (quote20 (recording tpm) pack (journal, s) aikHandle hashAlg nonce) =
   fst (quote20 tpm pack s aikHandle hashAlg nonce)"
  unfolding quote20_def recording_def Let_def
  by (simp split: prod.splits option.splits)

text \<open>
  C6. For every key handle, hash algorithm and nonce, and on every device in
  every state, a call of \<open>quote20\<close> sends exactly one command: the quote
  command over the indices 0 to 23 under that hash algorithm with that
  nonce. The journal before the call has no part in the result, and of two
  calls each sends its own command with its own nonce.
\<close>

theorem quote20_fresh_command:
  "snd (quote20 (recording tpm) pack (journal, s) aikHandle hashAlg nonce) =
     (journal @ [(quoteCommand aikHandle hashAlg nonce,
                  fst (tpm s (quoteCommand aikHandle hashAlg nonce)))],
      snd (tpm s (quoteCommand aikHandle hashAlg nonce)))
   \<and> fst (quote20 (recording tpm) pack (journal, s) aikHandle hashAlg nonce) =
       fst (quote20 tpm pack s aikHandle hashAlg nonce)
   \<and> map fst (fst (snd (quote20 (recording tpm) pack
         (snd (quote20 (recording tpm) pack ([], s) aikHandle hashAlg nonce))
         aikHandle' hashAlg' nonce'))) =
       [quoteCommand aikHandle hashAlg nonce, quoteCommand aikHandle' hashAlg' nonce']"
  by (simp add: quote20_journal quote20_result_recording)

text \<open>
  C8. A non-nil error is to come with a nil \<open>*Quote\<close>. Where the device
  answers and the packer reports an error, \<open>quote20\<close> returns that error next
  to a \<open>Quote\<close> whose signature is the packer's empty result.
\<close>

theorem quote20_quote_with_error:
  "quote20 echo_quote pack_refuses 0 0x81010002 0x000B [1, 2, 3] =
     (Returns (Some \<lparr>Version = TPMVersion20, Quote = [1, 2, 3], Signature = []\<rparr>,
               Some (Inr ())), 1)"
  by (simp add: quote20_def echo_quote_def pack_refuses_def)

section \<open>The address of the certificate service\<close>

lemma EncodeToString_foobar:
  "EncodeToString [0x66, 0x6f, 0x6f, 0x62, 0x61, 0x72] = ''Zm9vYmFy'' \<and>
   EncodeToString [0xfb, 0xff] = ''-_8='' \<and> EncodeToString [0xfb] = ''-w==''"
  by code_simp

lemma be_nat_append: "be_nat (xs @ [b]) = 256 * be_nat xs + unat b"
  by (simp add: be_nat_def)

lemma be_nat_natBytes: "be_nat (natBytes n) = n"
proof (induction n rule: natBytes.induct)
  case (1 n)
  show ?case
  proof (cases "n = 0")
    case True
    then show ?thesis by (simp add: be_nat_def natBytes.simps [of 0])
  next
    case False
    have "unat (of_nat (n mod 256) :: byte) = n mod 256"
      by (simp add: unat_of_nat)
    with False 1 show ?thesis
      by (subst natBytes.simps) (simp add: be_nat_append)
  qed
qed

text \<open>
  C7. For every public key, \<open>intelEKURL\<close> is the service address followed by
  the base64url encoding of the SHA-256 digest of the modulus bytes followed
  by \<open>01 00 01\<close>; the modulus bytes denote, most significant first, the
  absolute value of \<open>N\<close>. The exponent of the key has no part in it.
\<close>

theorem intelEKURL_value:
  "intelEKURL sha256 ekPub =
     ''https://ekop.intel.com/ekcertservice/'' @
       EncodeToString (sha256 (Bytes (N ekPub) @ [0x01, 0x00, 0x01]))
   \<and> int (be_nat (Bytes (N ekPub))) = \<bar>N ekPub\<bar>
   \<and> intelEKURL sha256 (ekPub\<lparr>E := e\<rparr>) = intelEKURL sha256 ekPub"
  by (simp add: intelEKURL_def intelEKCertServiceURL_def Sum_def Write_def New_def Bytes_def
      be_nat_natBytes)

section \<open>The AIK template\<close>

text \<open>
  The fields of the template as the file initialises it: an RSA key of 2048
  bits, the name algorithm SHA-256, the default flags of a signer (the
  signing flag set, the decryption flag clear), and the scheme RSASSA with
  SHA-256.
\<close>

lemma aikTemplate_fields:
  "Type aikTemplate = AlgRSA \<and> NameAlg aikTemplate = AlgSHA256 \<and>
   Attributes aikTemplate = FlagSignerDefault \<and>
   Attributes aikTemplate AND FlagSign = FlagSign \<and>
   Attributes aikTemplate AND FlagDecrypt = 0 \<and>
   RSAParameters aikTemplate =
     Some \<lparr>Sign = Some \<lparr>SchemeAlg = AlgRSASSA, SchemeHash = AlgSHA256\<rparr>, KeyBits = 2048\<rparr>"
  by (simp add: aikTemplate_def FlagSignerDefault_def FlagSign_def FlagRestricted_def
      FlagFixedTPM_def FlagFixedParent_def FlagSensitiveDataOrigin_def FlagUserWithAuth_def
      FlagDecrypt_def)

section \<open>Loading a serialized AIK\<close>

lemma loadAIK_Serialize:
  "loadAIK t (Serialize k) = (if aik_version k = t then Inr k else Inl FormatError)"
  by (cases k; cases t) simp_all

lemma loadAIK_Inr: "loadAIK t b = Inr k \<Longrightarrow> b = Serialize k \<and> aik_version k = t"
  by (cases t; cases b) (auto split: if_splits list.splits)

text \<open>
  C10. \<open>LoadAIK\<close> in a session of version \<open>t\<close> returns the key \<open>k\<close> on the blob
  \<open>Serialize k\<close> when \<open>k\<close> is of version \<open>t\<close>; it returns a key on exactly the
  blobs a \<open>Serialize\<close> of a key of that version produces, and fails with
  \<open>FormatError\<close> on exactly the others.
\<close>

theorem LoadAIK_accepts_exactly_serialized:
  "LoadAIK t (Serialize k) = (if aik_version k = t then Inr k else Inl FormatError)
   \<and> ((\<exists>k. LoadAIK t b = Inr k) \<longleftrightarrow> (\<exists>k. b = Serialize k \<and> aik_version k = t))
   \<and> (LoadAIK t b = Inl FormatError \<longleftrightarrow> \<not> (\<exists>k. b = Serialize k \<and> aik_version k = t))"
proof (intro conjI)
  show rt: "LoadAIK t (Serialize k) = (if aik_version k = t then Inr k else Inl FormatError)" for k
    by (simp add: LoadAIK_def loadAIK_Serialize)
  show iff: "(\<exists>k. LoadAIK t b = Inr k) \<longleftrightarrow> (\<exists>k. b = Serialize k \<and> aik_version k = t)"
  proof
    assume "\<exists>k. LoadAIK t b = Inr k"
    then show "\<exists>k. b = Serialize k \<and> aik_version k = t"
      using loadAIK_Inr by (auto simp: LoadAIK_def)
  next
    assume "\<exists>k. b = Serialize k \<and> aik_version k = t"
    then show "\<exists>k. LoadAIK t b = Inr k" using rt by auto
  qed
  show "LoadAIK t b = Inl FormatError \<longleftrightarrow> \<not> (\<exists>k. b = Serialize k \<and> aik_version k = t)"
  proof (cases "LoadAIK t b")
    case (Inl e)
    then have "\<not> (\<exists>k. LoadAIK t b = Inr k)" by simp
    with iff Inl show ?thesis by (cases e) simp
  next
    case (Inr k)
    then have "\<exists>k. LoadAIK t b = Inr k" by blast
    with iff Inr show ?thesis by simp
  qed
qed

theorem LoadAIK_accepts_exactly_serialized_witness:
  "LoadAIK TPMVersion20 (Serialize (AIK20 [1] [2] [3] [4])) = Inr (AIK20 [1] [2] [3] [4])
   \<and> LoadAIK TPMVersion12 (Serialize (AIK20 [1] [2] [3] [4])) = Inl FormatError
   \<and> LoadAIK TPMVersion20 \<lparr>version_tag = 2, inner_fields = [[1], [2]]\<rparr> = Inl FormatError
   \<and> \<not> (\<exists>k. \<lparr>version_tag = 2, inner_fields = [[1], [2]]\<rparr> = Serialize k \<and>
             aik_version k = TPMVersion20)"
  using LoadAIK_accepts_exactly_serialized
      [of TPMVersion20 "AIK20 [1] [2] [3] [4]" "\<lparr>version_tag = 2, inner_fields = [[1], [2]]\<rparr>"]
    LoadAIK_accepts_exactly_serialized
      [of TPMVersion12 "AIK20 [1] [2] [3] [4]" "\<lparr>version_tag = 2, inner_fields = [[1], [2]]\<rparr>"]
  by (simp add: LoadAIK_def)

end
